theory Spec2Isabelle
  imports Main "HOL-Library.Word"
begin

unbundle bit_operations_syntax

section \<open>Data model of package types\<close>

text \<open>
  A Go \<^verbatim>\<open>byte\<close> is an 8-bit word, a \<^verbatim>\<open>[]byte\<close> and a Go \<^verbatim>\<open>string\<close> are lists of
  bytes, an \<^verbatim>\<open>int\<close> used as a cursor or a count is a natural number (the counts of
  this code never go negative and never leave the buffer's length).
\<close>

type_synonym byte = "8 word"

subsection \<open>Type tags\<close>

text \<open>The \<^verbatim>\<open>iota\<close> block of the source, in its order.\<close>

definition NullType :: byte where [simp]: "NullType = 0"
definition BoolType :: byte where [simp]: "BoolType = 1"
definition Int64Type :: byte where [simp]: "Int64Type = 2"
definition Int32Type :: byte where [simp]: "Int32Type = 3"
definition FloatType :: byte where [simp]: "FloatType = 4"
definition StringType :: byte where [simp]: "StringType = 5"
definition CharType :: byte where [simp]: "CharType = 6"
definition BigIntType :: byte where [simp]: "BigIntType = 7"
definition BigFloatType :: byte where [simp]: "BigFloatType = 8"
definition ArrayType :: byte where [simp]: "ArrayType = 9"
definition DocumentType :: byte where [simp]: "DocumentType = 10"
definition CollectionType :: byte where [simp]: "CollectionType = 11"
definition DateType :: byte where [simp]: "DateType = 12"
definition TimeStampType :: byte where [simp]: "TimeStampType = 13"
definition EmailType :: byte where [simp]: "EmailType = 14"
definition PhoneType :: byte where [simp]: "PhoneType = 15"
definition MoneyType :: byte where [simp]: "MoneyType = 16"
definition UUIDType :: byte where [simp]: "UUIDType = 17"
definition BinaryType :: byte where [simp]: "BinaryType = 18"
definition BlobType :: byte where [simp]: "BlobType = 19"
definition LongitudeType :: byte where [simp]: "LongitudeType = 20"
definition LatitudeType :: byte where [simp]: "LatitudeType = 21"
definition CurrencyCodeType :: byte where [simp]: "CurrencyCodeType = 22"
definition CountryCodeType :: byte where [simp]: "CountryCodeType = 23"
definition EOFType :: byte where [simp]: "EOFType = 24"
definition NameType :: byte where [simp]: "NameType = 25"
definition LastType :: byte where [simp]: "LastType = 26"

definition NullTerm :: byte where [simp]: "NullTerm = 0"

definition IsInternal :: "byte \<Rightarrow> bool" where
  "IsInternal t \<longleftrightarrow> t = EOFType \<or> t = NameType \<or> t = LastType"

subsection \<open>Errors\<close>

text \<open>
  The four error values of the source, and the two run-time panics its code can
  raise: an index beyond the end of a slice, and a method call on a nil interface.
\<close>

datatype error =
    ErrInvalidLength
  | ErrInvalidType
  | ErrInvalidDocument
  | ErrStaticDocument
  | PanicIndexOutOfRange
  | PanicNilDereference

subsection \<open>Objects\<close>

text \<open>
  The implementations of interface \<^verbatim>\<open>Object\<close> in the repository. A \<^verbatim>\<open>Float\<close> is kept
  as its IEEE-754 bit pattern, which is all the codec looks at
  (\<^verbatim>\<open>math.Float64bits\<close> and \<^verbatim>\<open>math.Float64frombits\<close> are inverse bijections between
  \<^verbatim>\<open>float64\<close> and \<^verbatim>\<open>uint64\<close>). A \<^verbatim>\<open>*storage.Document\<close> and a
  \<^verbatim>\<open>*storage.Collection\<close> used as a value are opaque here: the codec only reads
  their tag. The constructor of \<^verbatim>\<open>Char\<close> carries a suffix, the name being taken.
\<close>

datatype object =
    Int64 "64 word"
  | Int32 "32 word"
  | Float "64 word"
  | String "byte list"
  | Bool bool
  | Null
  | Char_obj byte
  | EOF
  | Name "byte list"
  | Array "object list"
  | DocumentRef
  | CollectionRef

fun Type :: "object \<Rightarrow> byte" where
  "Type (Int64 i) = Int64Type"
| "Type (Int32 i) = Int32Type"
| "Type (Float f) = FloatType"
| "Type (String s) = StringType"
| "Type (Bool b) = BoolType"
| "Type Null = NullType"
| "Type (Char_obj c) = CharType"
| "Type EOF = EOFType"
| "Type (Name n) = NameType"
| "Type (Array a) = ArrayType"
| "Type DocumentRef = DocumentType"
| "Type CollectionRef = CollectionType"

section \<open>Scalar codec\<close>

subsection \<open>Big-endian integers (encoding/binary)\<close>

text \<open>
  \<^verbatim>\<open>binary.BigEndian.PutUint64\<close>, \<^verbatim>\<open>Uint64\<close>, \<^verbatim>\<open>PutUint32\<close> and \<^verbatim>\<open>Uint32\<close> of Go's
  standard library: the most significant byte first.
\<close>

definition PutUint64 :: "64 word \<Rightarrow> byte list" where
  "PutUint64 v =
     [ucast (drop_bit 56 v), ucast (drop_bit 48 v), ucast (drop_bit 40 v), ucast (drop_bit 32 v),
      ucast (drop_bit 24 v), ucast (drop_bit 16 v), ucast (drop_bit 8 v), ucast v]"

definition Uint64 :: "byte list \<Rightarrow> 64 word" where
  "Uint64 b =
     ucast (b ! 7) OR push_bit 8 (ucast (b ! 6)) OR push_bit 16 (ucast (b ! 5)) OR
     push_bit 24 (ucast (b ! 4)) OR push_bit 32 (ucast (b ! 3)) OR push_bit 40 (ucast (b ! 2)) OR
     push_bit 48 (ucast (b ! 1)) OR push_bit 56 (ucast (b ! 0))"

definition PutUint32 :: "32 word \<Rightarrow> byte list" where
  "PutUint32 v = [ucast (drop_bit 24 v), ucast (drop_bit 16 v), ucast (drop_bit 8 v), ucast v]"

definition Uint32 :: "byte list \<Rightarrow> 32 word" where
  "Uint32 b =
     ucast (b ! 3) OR push_bit 8 (ucast (b ! 2)) OR push_bit 16 (ucast (b ! 1)) OR
     push_bit 24 (ucast (b ! 0))"

subsection \<open>Encoders of the scalar types\<close>

definition boolToByte :: "bool \<Rightarrow> byte" where
  "boolToByte b = (if b then 1 else 0)"

definition byteToBool :: "byte \<Rightarrow> bool" where
  "byteToBool b = (if b = 1 then True else False)"

definition Int64_MarshalObject :: "64 word \<Rightarrow> byte list" where
  "Int64_MarshalObject i = Int64Type # PutUint64 i"

definition Int32_MarshalObject :: "32 word \<Rightarrow> byte list" where
  "Int32_MarshalObject i = Int32Type # PutUint32 i"

definition Float_MarshalObject :: "64 word \<Rightarrow> byte list" where
  "Float_MarshalObject f = FloatType # PutUint64 f"

text \<open>A buffer of \<^verbatim>\<open>len(s)+2\<close> bytes: the tag, the content, the terminator.\<close>

definition String_MarshalObject :: "byte list \<Rightarrow> byte list" where
  "String_MarshalObject s = StringType # s @ [NullTerm]"

definition Bool_MarshalObject :: "bool \<Rightarrow> byte list" where
  "Bool_MarshalObject b = [BoolType, boolToByte b]"

definition Null_MarshalObject :: "byte list" where
  "Null_MarshalObject = [NullType]"

definition Char_MarshalObject :: "byte \<Rightarrow> byte list" where
  "Char_MarshalObject c = [CharType, c]"

definition EOF_MarshalObject :: "byte list" where
  "EOF_MarshalObject = [EOFType]"

definition Name_MarshalObject :: "byte list \<Rightarrow> byte list" where
  "Name_MarshalObject n = ([NameType] @ n) @ [NullTerm]"

subsection \<open>Decoders of the scalar types\<close>

text \<open>
  Each decoder is the method \<^verbatim>\<open>UnmarshalObject\<close> of the type together with its wrapper
  \<^verbatim>\<open>UnmarshalT\<close>: the decoded value and the count on success, the error otherwise.
  A read \<^verbatim>\<open>b[i]\<close> that the source does not guard panics when \<^verbatim>\<open>i\<close> is not below
  \<^verbatim>\<open>len(b)\<close>; the model writes that branch out.
\<close>

definition UnmarshalInt64 :: "byte list \<Rightarrow> error + object \<times> nat" where
  "UnmarshalInt64 b =
     (if length b < 9 then Inl ErrInvalidLength
      else if b ! 0 \<noteq> Int64Type then Inl ErrInvalidType
      else Inr (Int64 (Uint64 (take 8 (drop 1 b))), 9))"

definition UnmarshalInt32 :: "byte list \<Rightarrow> error + object \<times> nat" where
  "UnmarshalInt32 b =
     (if length b < 5 then Inl ErrInvalidLength
      else if b ! 0 \<noteq> Int32Type then Inl ErrInvalidType
      else Inr (Int32 (Uint32 (take 4 (drop 1 b))), 5))"

definition UnmarshalFloat :: "byte list \<Rightarrow> error + object \<times> nat" where
  "UnmarshalFloat b =
     (if length b < 9 then Inl ErrInvalidLength
      else if b ! 0 \<noteq> FloatType then Inl ErrInvalidType
      else Inr (Float (Uint64 (take 8 (drop 1 b))), 9))"

text \<open>
  The search \<^verbatim>\<open>for i := 1; i < len(b); i++\<close> for the terminator, started at \<open>i\<close>: the
  index of the first terminator at or after \<open>i\<close>.
\<close>

function findNullTerm :: "byte list \<Rightarrow> nat \<Rightarrow> nat option" where
  "findNullTerm b i =
     (if i < length b
      then (if b ! i = NullTerm then Some i else findNullTerm b (i + 1))
      else None)"
  by pat_completeness auto
termination
  by (relation "measure (\<lambda>(b, i). length b - i)") auto

declare findNullTerm.simps [simp del]

definition UnmarshalString :: "byte list \<Rightarrow> error + object \<times> nat" where
  "UnmarshalString b =
     (if length b < 2 then Inl ErrInvalidLength
      else if b ! 0 \<noteq> StringType then Inl ErrInvalidType
      else case findNullTerm b 1 of
             Some i \<Rightarrow> Inr (String (take (i - 1) (drop 1 b)), i + 1)
           | None \<Rightarrow> Inl ErrInvalidLength)"

text \<open>The length check of \<^verbatim>\<open>Bool\<close> admits one byte; the read of \<^verbatim>\<open>by[1]\<close> follows it.\<close>

definition UnmarshalBool :: "byte list \<Rightarrow> error + object \<times> nat" where
  "UnmarshalBool by' =
     (if length by' < 1 then Inl ErrInvalidLength
      else if by' ! 0 \<noteq> BoolType then Inl ErrInvalidType
      else if \<not> 1 < length by' then Inl PanicIndexOutOfRange
      else Inr (Bool (byteToBool (by' ! 1)), 2))"

definition UnmarshalNull :: "byte list \<Rightarrow> error + object \<times> nat" where
  "UnmarshalNull b =
     (if length b < 1 then Inl ErrInvalidLength
      else if b ! 0 \<noteq> NullType then Inl ErrInvalidType
      else Inr (Null, 1))"

definition UnmarshalChar :: "byte list \<Rightarrow> error + object \<times> nat" where
  "UnmarshalChar b =
     (if length b < 2 then Inl ErrInvalidLength
      else if b ! 0 \<noteq> CharType then Inl ErrInvalidType
      else Inr (Char_obj (b ! 1), 2))"

definition UnmarshalEOF :: "byte list \<Rightarrow> error + object \<times> nat" where
  "UnmarshalEOF b =
     (if length b < 1 then Inl ErrInvalidLength
      else if b ! 0 \<noteq> EOFType then Inl ErrInvalidType
      else Inr (EOF, 1))"

text \<open>\<^verbatim>\<open>Name.UnmarshalObject\<close>, which the document decoders call on the receiver itself.\<close>

definition Name_UnmarshalObject :: "byte list \<Rightarrow> error + byte list \<times> nat" where
  "Name_UnmarshalObject b =
     (if length b < 2 then Inl ErrInvalidLength
      else if b ! 0 \<noteq> NameType then Inl ErrInvalidType
      else case findNullTerm b 1 of
             Some i \<Rightarrow> Inr (take (i - 1) (drop 1 b), i + 1)
           | None \<Rightarrow> Inl ErrInvalidLength)"

definition UnmarshalName :: "byte list \<Rightarrow> error + object \<times> nat" where
  "UnmarshalName b =
     (case Name_UnmarshalObject b of Inl e \<Rightarrow> Inl e | Inr (n, c) \<Rightarrow> Inr (Name n, c))"

section \<open>Composite codec\<close>

subsection \<open>The generic decoder and the Array decoder\<close>

text \<open>
  \<^verbatim>\<open>UnmarshalObject\<close> dispatches on the leading tag; for an Array it calls
  \<^verbatim>\<open>UnmarshalArray\<close>, whose receiver starts empty. \<^verbatim>\<open>Array.UnmarshalObject\<close> checks
  the leading byte and enters its loop at \<open>count = 1\<close>; the loop \<open>Array_loop\<close> reads
  \<^verbatim>\<open>b[count]\<close> (its own length check looks at \<^verbatim>\<open>len(b)\<close>, which the loop never
  changes), stops at the EndOfStream tag returning \<open>count\<close> as it stands, and
  otherwise decodes one element from \<^verbatim>\<open>b[count:]\<close> and appends it.
\<close>

function UnmarshalObject :: "byte list \<Rightarrow> error + object \<times> nat"
  and Array_UnmarshalObject :: "object list \<Rightarrow> byte list \<Rightarrow> error + object list \<times> nat"
  and Array_loop :: "object list \<Rightarrow> byte list \<Rightarrow> nat \<Rightarrow> error + object list \<times> nat"
where
  "UnmarshalObject b =
     (if length b < 1 then Inl ErrInvalidLength
      else if b ! 0 = Int64Type then UnmarshalInt64 b
      else if b ! 0 = Int32Type then UnmarshalInt32 b
      else if b ! 0 = FloatType then UnmarshalFloat b
      else if b ! 0 = StringType then UnmarshalString b
      else if b ! 0 = BoolType then UnmarshalBool b
      else if b ! 0 = NullType then UnmarshalNull b
      else if b ! 0 = CharType then UnmarshalChar b
      else if b ! 0 = EOFType then UnmarshalEOF b
      else if b ! 0 = NameType then UnmarshalName b
      else if b ! 0 = ArrayType
        then (case Array_UnmarshalObject [] b of
                Inl e \<Rightarrow> Inl e
              | Inr (a, count) \<Rightarrow> Inr (Array a, count))
      else Inl ErrInvalidType)"
| "Array_UnmarshalObject a b =
     (if length b < 1 then Inl ErrInvalidLength
      else if b ! 0 \<noteq> ArrayType then Inl ErrInvalidType
      else Array_loop a b 1)"
| "Array_loop a b count =
     (if length b < 1 then Inl ErrInvalidLength
      else if \<not> count < length b then Inl PanicIndexOutOfRange
      else if b ! count = EOFType then Inr (a, count)
      else case UnmarshalObject (drop count b) of
             Inl e \<Rightarrow> Inl e
           | Inr (value, n) \<Rightarrow> Array_loop (a @ [value]) b (count + n))"
  by pat_completeness auto

text \<open>
  The loop ends because every successful decode consumes at least one byte. That is a
  property of the decoders themselves, shown on their domain before termination.
\<close>

lemma scalar_counts:
  "UnmarshalInt64 b = Inr (v, n) \<Longrightarrow> 1 \<le> n"
  "UnmarshalInt32 b = Inr (v, n) \<Longrightarrow> 1 \<le> n"
  "UnmarshalFloat b = Inr (v, n) \<Longrightarrow> 1 \<le> n"
  "UnmarshalString b = Inr (v, n) \<Longrightarrow> 1 \<le> n"
  "UnmarshalBool b = Inr (v, n) \<Longrightarrow> 1 \<le> n"
  "UnmarshalNull b = Inr (v, n) \<Longrightarrow> 1 \<le> n"
  "UnmarshalChar b = Inr (v, n) \<Longrightarrow> 1 \<le> n"
  "UnmarshalEOF b = Inr (v, n) \<Longrightarrow> 1 \<le> n"
  "UnmarshalName b = Inr (v, n) \<Longrightarrow> 1 \<le> n"
  by (auto simp: UnmarshalInt64_def UnmarshalInt32_def UnmarshalFloat_def UnmarshalString_def
      UnmarshalBool_def UnmarshalNull_def UnmarshalChar_def UnmarshalEOF_def UnmarshalName_def
      Name_UnmarshalObject_def split: if_splits option.splits sum.splits)

lemma dom_counts:
  "UnmarshalObject_Array_UnmarshalObject_Array_loop_dom (Inl b) \<Longrightarrow>
     (\<forall>v n. UnmarshalObject b = Inr (v, n) \<longrightarrow> 1 \<le> n)"
  "UnmarshalObject_Array_UnmarshalObject_Array_loop_dom (Inr (Inl (a, b))) \<Longrightarrow>
     (\<forall>a' n. Array_UnmarshalObject a b = Inr (a', n) \<longrightarrow> 1 \<le> n)"
  "UnmarshalObject_Array_UnmarshalObject_Array_loop_dom (Inr (Inr (a, b, count))) \<Longrightarrow>
     (\<forall>a' n. Array_loop a b count = Inr (a', n) \<longrightarrow> count \<le> n)"
proof (induct rule: UnmarshalObject_Array_UnmarshalObject_Array_loop.pinduct)
  case (1 b)
  show ?case
    using 1(2)
    by (auto simp: UnmarshalObject.psimps [OF 1(1)] dest: scalar_counts
        split: if_splits sum.splits)
next
  case (2 a b)
  show ?case
    using 2(2)
    by (auto simp: Array_UnmarshalObject.psimps [OF 2(1)] split: if_splits)
next
  case (3 a b count)
  show ?case
    using 3(2,3)
    by (auto simp: Array_loop.psimps [OF 3(1)] split: if_splits sum.splits) fastforce
qed

termination UnmarshalObject
  apply (relation "measure (\<lambda>x. case x of
            Inl b \<Rightarrow> 3 * length b + 2
          | Inr (Inl (a, b)) \<Rightarrow> 3 * length b + 1
          | Inr (Inr (a, b, count)) \<Rightarrow> 3 * (length b - count) + 3)")
    apply (auto dest: dom_counts(1))
  subgoal for b by (cases b) simp_all
  done

declare UnmarshalObject.simps [simp del]
declare Array_UnmarshalObject.simps [simp del]
declare Array_loop.simps [simp del]

subsection \<open>The generic encoder and the Array encoder\<close>

text \<open>
  \<^verbatim>\<open>MarshalObject\<close> switches on the tag of the object; it has no case for a Document or
  a Collection. \<^verbatim>\<open>Array.MarshalObject\<close> starts from the tag byte and appends the
  encoding of each element in turn (\<open>Array_MarshalObject_loop\<close>, the accumulator first),
  returning the first error of an element.
\<close>

fun MarshalObject :: "object \<Rightarrow> error + byte list"
  and Array_MarshalObject_loop :: "byte list \<Rightarrow> object list \<Rightarrow> error + byte list"
where
  "MarshalObject (Int64 i) = Inr (Int64_MarshalObject i)"
| "MarshalObject (Int32 i) = Inr (Int32_MarshalObject i)"
| "MarshalObject (Float f) = Inr (Float_MarshalObject f)"
| "MarshalObject (String s) = Inr (String_MarshalObject s)"
| "MarshalObject (Bool b) = Inr (Bool_MarshalObject b)"
| "MarshalObject Null = Inr Null_MarshalObject"
| "MarshalObject (Char_obj c) = Inr (Char_MarshalObject c)"
| "MarshalObject EOF = Inr EOF_MarshalObject"
| "MarshalObject (Name n) = Inr (Name_MarshalObject n)"
| "MarshalObject (Array a) = Array_MarshalObject_loop [ArrayType] a"
| "MarshalObject DocumentRef = Inl ErrInvalidType"
| "MarshalObject CollectionRef = Inl ErrInvalidType"
| "Array_MarshalObject_loop b [] = Inr b"
| "Array_MarshalObject_loop b (value # rest) =
     (case MarshalObject value of
        Inl e \<Rightarrow> Inl e
      | Inr marshaledValue \<Rightarrow> Array_MarshalObject_loop (b @ marshaledValue) rest)"

section \<open>Document wrapper (package storage)\<close>

text \<open>
  The wrapper's field map, its \<^verbatim>\<open>modified\<close> flag and its \<^verbatim>\<open>static\<close> flag. Its handles
  of the database, the collection and the transaction, and the cached storage key, are
  left out: no operation below reads them. A map key is the Go string of the field name.
  The values of the map are objects; a nil interface stored as a value is outside the
  model, and an unbound key reads as nil, here \<open>None\<close>.
\<close>

record document =
  kv :: "byte list \<rightharpoonup> object"
  modified :: bool
  static :: bool

definition NewDocument :: document where
  "NewDocument = \<lparr>kv = Map.empty, modified = False, static = False\<rparr>"

definition NewStaticDocument :: document where
  "NewStaticDocument = \<lparr>kv = Map.empty, modified = False, static = True\<rparr>"

text \<open>The string literal \<^verbatim>\<open>"id"\<close>.\<close>

definition id_key :: "byte list" where
  "id_key = [0x69, 0x64]"

definition ID :: "document \<Rightarrow> object option" where
  "ID d = kv d id_key"

definition Get :: "document \<Rightarrow> byte list \<Rightarrow> object option" where
  "Get d key = kv d key"

text \<open>\<^verbatim>\<open>Set\<close> and \<^verbatim>\<open>Del\<close> return the wrapper after the call and the error, if any.\<close>

definition Del :: "document \<Rightarrow> byte list \<Rightarrow> document \<times> error option" where
  "Del d key =
     (if static d then (d, Some ErrStaticDocument)
      else (d\<lparr>kv := (kv d)(key := None), modified := True\<rparr>, None))"

definition Set :: "document \<Rightarrow> byte list \<Rightarrow> object \<Rightarrow> document \<times> error option" where
  "Set d key value =
     (if static d then (d, Some ErrStaticDocument)
      else (d\<lparr>kv := (kv d)(key \<mapsto> value), modified := True\<rparr>, None))"

text \<open>
  \<^verbatim>\<open>Keys\<close> ranges over a Go map, whose iteration order is not fixed: any list that
  holds each bound key once is a possible result.
\<close>

definition Keys_result :: "document \<Rightarrow> byte list list \<Rightarrow> bool" where
  "Keys_result d keys \<longleftrightarrow> distinct keys \<and> set keys = dom (kv d)"

subsection \<open>Serialising a document\<close>

text \<open>
  \<^verbatim>\<open>GenericDocumentUnmarshaler\<close> (the encoder, despite its name), given the list that
  \<^verbatim>\<open>doc.Keys()\<close> returned. The loop appends, for each key, the key encoded as a Name and
  the encoded value; the value of a key that is not bound is nil, and encoding nil calls
  a method on a nil interface. The EndOfStream encoding is appended at the end.
\<close>

fun GenericDocumentUnmarshaler_loop ::
  "document \<Rightarrow> byte list \<Rightarrow> byte list list \<Rightarrow> error + byte list" where
  "GenericDocumentUnmarshaler_loop doc b [] = Inr b"
| "GenericDocumentUnmarshaler_loop doc b (key # keys) =
     (case MarshalObject (Name key) of
        Inl e \<Rightarrow> Inl e
      | Inr marshaledName \<Rightarrow>
          (case Get doc key of
             None \<Rightarrow> Inl PanicNilDereference
           | Some value \<Rightarrow>
               (case MarshalObject value of
                  Inl e \<Rightarrow> Inl e
                | Inr marshaledValue \<Rightarrow>
                    GenericDocumentUnmarshaler_loop doc
                      ((b @ marshaledName) @ marshaledValue) keys)))"

definition GenericDocumentUnmarshaler :: "byte list list \<Rightarrow> document \<Rightarrow> error + byte list" where
  "GenericDocumentUnmarshaler keys doc =
     (if ID doc = None then Inl ErrInvalidDocument
      else case GenericDocumentUnmarshaler_loop doc [DocumentType] keys of
             Inl e \<Rightarrow> Inl e
           | Inr b \<Rightarrow> Inr (b @ EOF_MarshalObject))"

definition Document_MarshalObject :: "byte list list \<Rightarrow> document \<Rightarrow> error + byte list" where
  "Document_MarshalObject keys d = GenericDocumentUnmarshaler keys d"

subsection \<open>Deserialising a document\<close>

text \<open>
  The loop of \<^verbatim>\<open>Document.UnmarshalObject\<close>, on the field map, the whole buffer and the
  cursor: it returns the field map as the loop left it, and the cursor or the error.
  Each decoded field is stored into the wrapper's own map as soon as it is decoded.
\<close>

lemma Name_UnmarshalObject_count:
  "Name_UnmarshalObject b = Inr (name, nameCount) \<Longrightarrow> 1 \<le> nameCount"
  by (auto simp: Name_UnmarshalObject_def split: if_splits option.splits)

function Document_loop ::
  "(byte list \<rightharpoonup> object) \<Rightarrow> byte list \<Rightarrow> nat \<Rightarrow> (byte list \<rightharpoonup> object) \<times> (error + nat)" where
  "Document_loop m b count =
     (if length b < 1 then (m, Inl ErrInvalidLength)
      else if \<not> count < length b then (m, Inl PanicIndexOutOfRange)
      else if b ! count = EOFType then (m, Inr count)
      else case Name_UnmarshalObject (drop count b) of
             Inl e \<Rightarrow> (m, Inl e)
           | Inr (name, nameCount) \<Rightarrow>
               (case UnmarshalObject (drop (count + nameCount) b) of
                  Inl e \<Rightarrow> (m, Inl e)
                | Inr (value, countValue) \<Rightarrow>
                    if IsInternal (Type value) then (m, Inl ErrInvalidDocument)
                    else Document_loop (m(name \<mapsto> value)) b (count + nameCount + countValue)))"
  by pat_completeness auto
termination
  by (relation "measure (\<lambda>(m, b, count). length b - count)")
     (auto dest: Name_UnmarshalObject_count)

declare Document_loop.simps [simp del]

definition Document_UnmarshalObject :: "document \<Rightarrow> byte list \<Rightarrow> document \<times> (error + nat)" where
  "Document_UnmarshalObject d b =
     (if length b < 1 then (d, Inl ErrInvalidLength)
      else if b ! 0 \<noteq> DocumentType then (d, Inl ErrInvalidType)
      else case Document_loop (kv d) b 1 of
             (m, Inl e) \<Rightarrow> (d\<lparr>kv := m\<rparr>, Inl e)
           | (m, Inr count) \<Rightarrow>
               if m id_key = None then (d\<lparr>kv := m\<rparr>, Inl ErrInvalidDocument)
               else (d\<lparr>kv := m\<rparr>, Inr count))"

text \<open>
  The failure exits of one iteration of that loop, on the buffer from the cursor on: the
  error of the name decoder, else the error of the value decoder, else InvalidDocument
  for an internal value; \<open>None\<close> when the field is decoded and stored.
\<close>

definition next_field_error :: "byte list \<Rightarrow> error option" where
  "next_field_error rest =
     (case Name_UnmarshalObject rest of
        Inl e \<Rightarrow> Some e
      | Inr (name, nameCount) \<Rightarrow>
          (case UnmarshalObject (drop nameCount rest) of
             Inl e \<Rightarrow> Some e
           | Inr (value, countValue) \<Rightarrow>
               if IsInternal (Type value) then Some ErrInvalidDocument else None))"

subsection \<open>Projection\<close>

text \<open>
  \<^verbatim>\<open>Project\<close>: \<open>inKey\<close> is the closure of the source; a field whose name is requested
  is decoded, checked and stored, any other field is decoded and dropped. There is no
  check for the \<^verbatim>\<open>"id"\<close> field after the loop.
\<close>

definition inKey :: "byte list list \<Rightarrow> byte list \<Rightarrow> bool" where
  "inKey keys name \<longleftrightarrow> name \<in> set keys"

function Project_loop ::
  "byte list list \<Rightarrow> (byte list \<rightharpoonup> object) \<Rightarrow> byte list \<Rightarrow> nat \<Rightarrow>
     (byte list \<rightharpoonup> object) \<times> (error + nat)" where
  "Project_loop keys m b count =
     (if length b < 1 then (m, Inl ErrInvalidLength)
      else if \<not> count < length b then (m, Inl PanicIndexOutOfRange)
      else if b ! count = EOFType then (m, Inr count)
      else case Name_UnmarshalObject (drop count b) of
             Inl e \<Rightarrow> (m, Inl e)
           | Inr (name, nameCount) \<Rightarrow>
               if inKey keys name
               then (case UnmarshalObject (drop (count + nameCount) b) of
                       Inl e \<Rightarrow> (m, Inl e)
                     | Inr (value, countValue) \<Rightarrow>
                         if IsInternal (Type value) then (m, Inl ErrInvalidDocument)
                         else Project_loop keys (m(name \<mapsto> value)) b
                                (count + nameCount + countValue))
               else (case UnmarshalObject (drop (count + nameCount) b) of
                       Inl e \<Rightarrow> (m, Inl e)
                     | Inr (value, countValue) \<Rightarrow>
                         Project_loop keys m b (count + nameCount + countValue)))"
  by pat_completeness auto
termination
  by (relation "measure (\<lambda>(keys, m, b, count). length b - count)")
     (auto dest: Name_UnmarshalObject_count)

declare Project_loop.simps [simp del]

definition Project :: "document \<Rightarrow> byte list \<Rightarrow> byte list list \<Rightarrow> document \<times> (error + nat)" where
  "Project d b keys =
     (if length keys < 1 then (d, Inr 0)
      else if length b < 1 then (d, Inl ErrInvalidLength)
      else if b ! 0 \<noteq> DocumentType then (d, Inl ErrInvalidType)
      else case Project_loop keys (kv d) b 1 of
             (m, r) \<Rightarrow> (d\<lparr>kv := m\<rparr>, r))"

section \<open>Values that the wire format can carry\<close>

text \<open>
  The scalar types of the specification: Null, Bool, Char, Int32, Int64, Float and
  String. A String is written as its bytes followed by the terminator \<^verbatim>\<open>0x00\<close>, with no
  length and no escape, so only content free of that byte can be read back.
\<close>

fun scalar :: "object \<Rightarrow> bool" where
  "scalar Null = True"
| "scalar (Bool b) = True"
| "scalar (Char_obj c) = True"
| "scalar (Int32 i) = True"
| "scalar (Int64 i) = True"
| "scalar (Float f) = True"
| "scalar (String s) = True"
| "scalar v = False"

fun NullTerm_free :: "object \<Rightarrow> bool" where
  "NullTerm_free (String s) = (NullTerm \<notin> set s)"
| "NullTerm_free v = True"

text \<open>
  A well-formed document stream: the Document tag, then for each field its name encoded as
  a Name followed by the encoding of its value, then the EndOfStream byte. The fields
  considered have a name free of the byte \<^verbatim>\<open>0x00\<close> and a scalar value that can be read
  back. \<open>store\<close> is the assignment \<^verbatim>\<open>d.kv[string(name)] = value\<close> of the decoders, and
  \<open>store_requested\<close> the same under the test \<^verbatim>\<open>inKey(name)\<close> of \<^verbatim>\<open>Project\<close>.
\<close>

definition encoding :: "object \<Rightarrow> byte list" where
  "encoding v = (case MarshalObject v of Inl e \<Rightarrow> [] | Inr bs \<Rightarrow> bs)"

fun encoded_fields :: "(byte list \<times> object) list \<Rightarrow> byte list" where
  "encoded_fields [] = []"
| "encoded_fields ((name, value) # fs) = Name_MarshalObject name @ encoding value @ encoded_fields fs"

definition document_stream :: "(byte list \<times> object) list \<Rightarrow> byte list" where
  "document_stream fs = DocumentType # encoded_fields fs @ [EOFType]"

definition wire_field :: "byte list \<times> object \<Rightarrow> bool" where
  "wire_field f \<longleftrightarrow> NullTerm \<notin> set (fst f) \<and> scalar (snd f) \<and> NullTerm_free (snd f)"

definition store :: "(byte list \<rightharpoonup> object) \<Rightarrow> byte list \<times> object \<Rightarrow> (byte list \<rightharpoonup> object)" where
  "store m f = m(fst f \<mapsto> snd f)"


text \<open>
  A wrapper whose fields, as listed by \<open>keys\<close>, are all bound to a scalar value that can be
  read back, under a name free of the byte \<^verbatim>\<open>0x00\<close>.
\<close>

definition wire_document :: "document \<Rightarrow> byte list list \<Rightarrow> bool" where
  "wire_document d keys \<longleftrightarrow>
     list_all (\<lambda>key. case kv d key of None \<Rightarrow> False | Some value \<Rightarrow> wire_field (key, value)) keys"

subsection \<open>A sample document\<close>

text \<open>
  The document \<^verbatim>\<open>{id: Int64(1), name: String("alice"), amount: Int32(5)}\<close> and its
  encoding with the keys in that order.
\<close>

definition name_key :: "byte list" where
  "name_key = [0x6e, 0x61, 0x6d, 0x65]"

definition amount_key :: "byte list" where
  "amount_key = [0x61, 0x6d, 0x6f, 0x75, 0x6e, 0x74]"

definition alice :: "byte list" where
  "alice = [0x61, 0x6c, 0x69, 0x63, 0x65]"

definition example_document :: document where
  "example_document =
     \<lparr>kv = [id_key \<mapsto> Int64 1, name_key \<mapsto> String alice, amount_key \<mapsto> Int32 5],
      modified = True, static = False\<rparr>"

definition example_bytes :: "byte list" where
  "example_bytes =
     [DocumentType,
      NameType, 0x69, 0x64, NullTerm,
      Int64Type, 0, 0, 0, 0, 0, 0, 0, 1,
      NameType, 0x6e, 0x61, 0x6d, 0x65, NullTerm,
      StringType, 0x61, 0x6c, 0x69, 0x63, 0x65, NullTerm,
      NameType, 0x61, 0x6d, 0x6f, 0x75, 0x6e, 0x74, NullTerm,
      Int32Type, 0, 0, 0, 5,
      EOFType]"

section \<open>Properties\<close>

subsection \<open>Static documents\<close>

lemma static_preserved:
  "static (fst (Set d key value)) = static d"
  "static (fst (Del d key)) = static d"
  "static (fst (Document_UnmarshalObject d b)) = static d"
  "static (fst (Project d b keys)) = static d"
  by (auto simp: Set_def Del_def Document_UnmarshalObject_def Project_def
      split: prod.splits sum.splits)

text \<open>
  Claim C9. On a wrapper whose static flag is set, as \<^verbatim>\<open>NewStaticDocument\<close> sets it and no
  operation clears it, every call of \<^verbatim>\<open>Set\<close> and every call of \<^verbatim>\<open>Del\<close>, for any key and
  any value, returns the error StaticDocument and leaves the wrapper, its field map
  included, as it was.
\<close>

theorem static_document_immutable:
  "static d \<Longrightarrow>
     Set d key value = (d, Some ErrStaticDocument) \<and> Del d key = (d, Some ErrStaticDocument)"
  by (simp add: Set_def Del_def)

theorem static_document_immutable_witness:
  "static (fst (Project NewStaticDocument [DocumentType, NameType, 0x61, NullTerm, NullType, EOFType] [[0x61]]))
   \<and> kv (fst (Project NewStaticDocument [DocumentType, NameType, 0x61, NullTerm, NullType, EOFType] [[0x61]])) [0x61] = Some Null
   \<and> Set (fst (Project NewStaticDocument [DocumentType, NameType, 0x61, NullTerm, NullType, EOFType] [[0x61]])) [0x61] (Bool True)
       = (fst (Project NewStaticDocument [DocumentType, NameType, 0x61, NullTerm, NullType, EOFType] [[0x61]]), Some ErrStaticDocument)
   \<and> Del (fst (Project NewStaticDocument [DocumentType, NameType, 0x61, NullTerm, NullType, EOFType] [[0x61]])) [0x61]
       = (fst (Project NewStaticDocument [DocumentType, NameType, 0x61, NullTerm, NullType, EOFType] [[0x61]]), Some ErrStaticDocument)"
proof -
  let ?d = "fst (Project NewStaticDocument
                   [DocumentType, NameType, 0x61, NullTerm, NullType, EOFType] [[0x61]])"
  have st: "static ?d"
    by (simp add: static_preserved NewStaticDocument_def)
  have "Project_loop [[0x61]] Map.empty [10, 25, 0x61, 0, 0, 24] 1 = ([[0x61] \<mapsto> Null], Inr 5)"
    by (simp add: Project_loop.simps Name_UnmarshalObject_def findNullTerm.simps inKey_def
        UnmarshalObject.simps UnmarshalNull_def IsInternal_def)
  then have m: "kv ?d [0x61] = Some Null"
    by (simp add: Project_def NewStaticDocument_def)
  from st m static_document_immutable [OF st, of "[0x61]" "Bool True"] show ?thesis
    by simp
qed

subsection \<open>The Array encoder\<close>

text \<open>
  Claim C1. The claim asks for the Array tag, the elements' encodings in order, and the
  EndOfStream byte at the end. \<^verbatim>\<open>Array.MarshalObject\<close> returns its buffer right after the
  loop over the elements: the encoding of the array of Int32 1 and Int32 2 is the tag and
  the two elements, eleven bytes, and that of the empty array is the tag alone; no
  EndOfStream byte follows, although \<^verbatim>\<open>EOF.MarshalObject\<close> is the one byte the document
  encoder appends.
\<close>

theorem Array_MarshalObject_omits_EOF:
  "MarshalObject (Array [Int32 1, Int32 2]) =
     Inr [ArrayType, Int32Type, 0, 0, 0, 1, Int32Type, 0, 0, 0, 2]
   \<and> MarshalObject (Array []) = Inr [ArrayType]
   \<and> MarshalObject EOF = Inr [EOFType]"
  by (simp add: Int32_MarshalObject_def PutUint32_def EOF_MarshalObject_def)

subsection \<open>The Array decoder\<close>

text \<open>
  Claim C4. The claim asks that a buffer with an internal marker in the place of an array
  element is refused. \<^verbatim>\<open>Array.UnmarshalObject\<close> has no test of \<^verbatim>\<open>IsInternal\<close>, which the
  document decoder applies to each value: on the Array tag, a Name-tagged \<^verbatim>\<open>"a"\<close> and the
  EndOfStream byte it returns the array holding that Name, with count 4 and no error.
\<close>

theorem Array_UnmarshalObject_accepts_Name:
  "UnmarshalObject [ArrayType, NameType, 0x61, NullTerm, EOFType] = Inr (Array [Name [0x61]], 4)
   \<and> IsInternal (Type (Name [0x61]))"
  by (simp add: UnmarshalObject.simps Array_UnmarshalObject.simps Array_loop.simps
      UnmarshalName_def Name_UnmarshalObject_def findNullTerm.simps IsInternal_def)

subsection \<open>Short buffers\<close>

text \<open>
  Claim C5. The claim asks for the error InvalidLength on every buffer that is too short
  or has no terminator. \<^verbatim>\<open>Bool.UnmarshalObject\<close> admits a buffer of one byte and then
  reads \<^verbatim>\<open>by[1]\<close>; the loops of the Array and Document decoders test \<^verbatim>\<open>len(b) < 1\<close> and
  then read \<^verbatim>\<open>b[count]\<close>. On the Bool tag alone, on the Array tag alone, on an Array with
  an element and no EndOfStream byte, and on the Document tag alone, the read is out of
  range: the code panics, and no error value is returned. A String with no terminator
  does return InvalidLength.
\<close>

theorem short_buffer_index_out_of_range:
  "UnmarshalObject [BoolType] = Inl PanicIndexOutOfRange
   \<and> UnmarshalObject [ArrayType] = Inl PanicIndexOutOfRange
   \<and> UnmarshalObject [ArrayType, NullType] = Inl PanicIndexOutOfRange
   \<and> snd (Document_UnmarshalObject NewDocument [DocumentType]) = Inl PanicIndexOutOfRange
   \<and> UnmarshalObject [StringType, 0x61] = Inl ErrInvalidLength"
  by (simp add: UnmarshalObject.simps UnmarshalBool_def Array_UnmarshalObject.simps
      Array_loop.simps UnmarshalNull_def Document_UnmarshalObject_def Document_loop.simps
      UnmarshalString_def findNullTerm.simps)

subsection \<open>Round trip of the scalar types\<close>

lemma Uint32_PutUint32: "Uint32 (PutUint32 v) = v"
proof (rule bit_word_eqI)
  fix n :: nat
  assume "n < LENGTH(32)"
  then have "n < 32" by simp
  then consider "n < 8" | "8 \<le> n" "n < 16" | "16 \<le> n" "n < 24" | "24 \<le> n" "n < 32"
    by linarith
  then show "bit (Uint32 (PutUint32 v)) n = bit v n"
    by cases (auto simp add: Uint32_def PutUint32_def bit_simps)
qed

lemma findNullTerm_terminated:
  "NullTerm \<notin> set s \<Longrightarrow>
     findNullTerm (pre @ s @ NullTerm # rest) (length pre) = Some (length pre + length s)"
proof (induction s arbitrary: pre)
  case Nil
  then show ?case by (simp add: findNullTerm.simps)
next
  case (Cons x s)
  from Cons.prems have x: "x \<noteq> 0" and s: "NullTerm \<notin> set s" by auto
  have "findNullTerm (pre @ (x # s) @ NullTerm # rest) (length pre)
        = findNullTerm ((pre @ [x]) @ s @ NullTerm # rest) (length (pre @ [x]))"
    using x by (subst findNullTerm.simps) (simp add: nth_append)
  also have "\<dots> = Some (length (pre @ [x]) + length s)"
    by (rule Cons.IH [OF s])
  finally show ?case by simp
qed

lemma Name_UnmarshalObject_Name_MarshalObject:
  "NullTerm \<notin> set n \<Longrightarrow>
     Name_UnmarshalObject (Name_MarshalObject n @ rest) = Inr (n, length (Name_MarshalObject n))"
  using findNullTerm_terminated [of n "[NameType]" rest]
  by (simp add: Name_UnmarshalObject_def Name_MarshalObject_def)

lemma UnmarshalString_String_MarshalObject:
  "NullTerm \<notin> set s \<Longrightarrow>
     UnmarshalString (String_MarshalObject s @ rest) = Inr (String s, length (String_MarshalObject s))"
  using findNullTerm_terminated [of s "[StringType]" rest]
  by (simp add: UnmarshalString_def String_MarshalObject_def)

lemma length_PutUint64 [simp]: "length (PutUint64 v) = 8"
  by (simp add: PutUint64_def)

lemma length_PutUint32 [simp]: "length (PutUint32 v) = 4"
  by (simp add: PutUint32_def)

lemma byteToBool_boolToByte [simp]: "byteToBool (boolToByte b) = b"
  by (simp add: byteToBool_def boolToByte_def)


lemma Uint64_PutUint64: "Uint64 (PutUint64 v) = v"
proof (rule bit_word_eqI)
  fix n :: nat
  assume "n < LENGTH(64)"
  then have "n < 64" by simp
  then consider "n < 8" | "8 \<le> n" "n < 16" | "16 \<le> n" "n < 24" | "24 \<le> n" "n < 32"
    | "32 \<le> n" "n < 40" | "40 \<le> n" "n < 48" | "48 \<le> n" "n < 56" | "56 \<le> n" "n < 64"
    by linarith
  then show "bit (Uint64 (PutUint64 v)) n = bit v n"
    by cases (auto simp add: Uint64_def PutUint64_def bit_simps)
qed

lemma UnmarshalObject_MarshalObject_append:
  assumes "scalar v" and "NullTerm_free v" and "MarshalObject v = Inr bs"
  shows "UnmarshalObject (bs @ rest) = Inr (v, length bs)"
proof (cases v)
  case (Int64 i)
  with assms(3) show ?thesis
    by (auto simp add: UnmarshalObject.simps UnmarshalInt64_def Int64_MarshalObject_def Uint64_PutUint64)
next
  case (Int32 i)
  with assms(3) show ?thesis
    by (auto simp add: UnmarshalObject.simps UnmarshalInt32_def Int32_MarshalObject_def Uint32_PutUint32)
next
  case (Float f)
  with assms(3) show ?thesis
    by (auto simp add: UnmarshalObject.simps UnmarshalFloat_def Float_MarshalObject_def Uint64_PutUint64)
next
  case (String s)
  with assms(2,3) UnmarshalString_String_MarshalObject [of s rest] show ?thesis
    by (auto simp add: UnmarshalObject.simps String_MarshalObject_def)
next
  case (Bool b)
  with assms(3) show ?thesis
    by (auto simp add: UnmarshalObject.simps UnmarshalBool_def Bool_MarshalObject_def)
next
  case Null
  with assms(3) show ?thesis
    by (auto simp add: UnmarshalObject.simps UnmarshalNull_def Null_MarshalObject_def)
next
  case (Char_obj c)
  with assms(3) show ?thesis
    by (auto simp add: UnmarshalObject.simps UnmarshalChar_def Char_MarshalObject_def)
qed (use assms(1) in simp_all)

lemma scalar_MarshalObject: "scalar v \<Longrightarrow> \<exists>bs. MarshalObject v = Inr bs"
  by (cases v) simp_all

text \<open>
  The wire layout of a String requires content without the byte \<^verbatim>\<open>0x00\<close>, and the encoder
  does not check it: the String holding that single byte, which the layout does not
  represent, is written in three bytes and read back as the empty String with count 2.
\<close>

lemma String_embedded_NullTerm_cut:
  "scalar (String [NullTerm])
   \<and> MarshalObject (String [NullTerm]) = Inr [StringType, NullTerm, NullTerm]
   \<and> UnmarshalObject [StringType, NullTerm, NullTerm] = Inr (String [], 2)"
  by (simp add: String_MarshalObject_def UnmarshalObject.simps UnmarshalString_def
      findNullTerm.simps)


text \<open>
  Claim C7. For every scalar type (Null, Bool, Char, Int32, Int64, Float, String) and
  every representable value of it, a String being representable when its content is free
  of the byte \<^verbatim>\<open>0x00\<close> as the wire layout requires, the encoder succeeds, and decoding the
  bytes returns the value and the number of bytes of the encoding.
\<close>

theorem scalar_roundtrip:
  "scalar v \<Longrightarrow> NullTerm_free v \<Longrightarrow>
     \<exists>bs. MarshalObject v = Inr bs \<and> UnmarshalObject bs = Inr (v, length bs)"
  using UnmarshalObject_MarshalObject_append [of v _ "[]"] scalar_MarshalObject [of v]
  by auto

theorem scalar_roundtrip_witness:
  "scalar (String [0x61, 0x62]) \<and> NullTerm_free (String [0x61, 0x62])
   \<and> MarshalObject (String [0x61, 0x62]) = Inr [StringType, 0x61, 0x62, NullTerm]
   \<and> UnmarshalObject [StringType, 0x61, 0x62, NullTerm] = Inr (String [0x61, 0x62], 4)"
  using scalar_roundtrip [of "String [0x61, 0x62]"]
  by (simp add: String_MarshalObject_def)


subsection \<open>The decoding loops on a well-formed stream\<close>

lemma store_pair [simp]: "store m (k, v) = m(k \<mapsto> v)"
  by (simp add: store_def)

lemma scalar_not_internal: "scalar v \<Longrightarrow> \<not> IsInternal (Type v)"
  by (cases v) (simp_all add: IsInternal_def)

lemma scalar_encoding: "scalar v \<Longrightarrow> MarshalObject v = Inr (encoding v)"
  by (cases v) (simp_all add: encoding_def)

lemma Name_MarshalObject_nth: "(Name_MarshalObject k @ rest) ! 0 = NameType"
  by (simp add: Name_MarshalObject_def)

lemma field_decode:
  assumes "wire_field (k, v)" and "length pre = count"
  shows "Name_UnmarshalObject (drop count (pre @ Name_MarshalObject k @ encoding v @ rest))
           = Inr (k, length (Name_MarshalObject k))"
    and "UnmarshalObject (drop (count + length (Name_MarshalObject k))
           (pre @ Name_MarshalObject k @ encoding v @ rest)) = Inr (v, length (encoding v))"
proof -
  from assms(1) have k: "NullTerm \<notin> set k" and v: "scalar v" "NullTerm_free v"
    by (simp_all add: wire_field_def)
  show "Name_UnmarshalObject (drop count (pre @ Name_MarshalObject k @ encoding v @ rest))
           = Inr (k, length (Name_MarshalObject k))"
    using assms(2) Name_UnmarshalObject_Name_MarshalObject [OF k] by simp
  show "UnmarshalObject (drop (count + length (Name_MarshalObject k))
           (pre @ Name_MarshalObject k @ encoding v @ rest)) = Inr (v, length (encoding v))"
    using assms(2) UnmarshalObject_MarshalObject_append [OF v scalar_encoding [OF v(1)]]
    by simp
qed

lemma Document_loop_step:
  assumes "count < length b" and "b ! count \<noteq> EOFType"
    and "Name_UnmarshalObject (drop count b) = Inr (k, nc)"
    and "UnmarshalObject (drop (count + nc) b) = Inr (v, vc)"
    and "\<not> IsInternal (Type v)"
  shows "Document_loop m b count = Document_loop (m(k \<mapsto> v)) b (count + nc + vc)"
  using assms by (subst Document_loop.simps) auto


lemma loop_stop:
  assumes "count < length b" and "b ! count = EOFType"
  shows "Document_loop m b count = (m, Inr count)"
    and "Project_loop keys m b count = (m, Inr count)"
  using assms
  by (subst Document_loop.simps, auto) (subst Project_loop.simps, auto)

lemma Document_loop_stream:
  assumes "list_all wire_field fs" and "length pre = count"
  shows "Document_loop m (pre @ encoded_fields fs @ EOFType # post) count
           = (foldl store m fs, Inr (count + length (encoded_fields fs)))"
  using assms
proof (induction fs arbitrary: m pre count)
  case Nil
  then show ?case by (simp add: loop_stop nth_append)
next
  case (Cons f fs)
  obtain k v where f: "f = (k, v)" by (cases f)
  from Cons.prems f have wf: "wire_field (k, v)" and rest: "list_all wire_field fs" by simp_all
  define tail where "tail = encoded_fields fs @ EOFType # post"
  define b where "b = pre @ Name_MarshalObject k @ encoding v @ tail"
  have b: "pre @ encoded_fields (f # fs) @ EOFType # post = b"
    and b': "b = (pre @ Name_MarshalObject k @ encoding v) @ encoded_fields fs @ EOFType # post"
    by (simp_all add: f b_def tail_def)
  have lt: "count < length b" using Cons.prems(2) by (simp add: b_def Name_MarshalObject_def)
  have tag: "b ! count \<noteq> EOFType"
    using Cons.prems(2) by (simp add: b_def nth_append Name_MarshalObject_def)
  from wf have v: "\<not> IsInternal (Type v)" by (simp add: wire_field_def scalar_not_internal)
  have "Document_loop m b count
      = Document_loop (m(k \<mapsto> v)) b (count + length (Name_MarshalObject k) + length (encoding v))"
    using lt tag field_decode [OF wf Cons.prems(2), of tail, folded b_def] v
    by (rule Document_loop_step)
  also have "\<dots> = (foldl store (m(k \<mapsto> v)) fs,
           Inr (count + length (Name_MarshalObject k) + length (encoding v) + length (encoded_fields fs)))"
    unfolding b' by (rule Cons.IH [OF rest]) (simp add: Cons.prems(2))
  finally show ?case unfolding b by (simp add: f)
qed



subsection \<open>What a failed decode leaves in the wrapper\<close>

text \<open>
  The loop of the decoder only writes to the field map, it never reads it: its run from
  any map is its run from the empty map, laid over that map.
\<close>

lemma Document_loop_map_add:
  "Document_loop (m ++ m') b count
     = (m ++ fst (Document_loop m' b count), snd (Document_loop m' b count))"
proof (induction m' b count arbitrary: m rule: Document_loop.induct)
  case (1 m' b count)
  note unfold = Document_loop.simps [of _ b count]
  show ?case
  proof (cases "length b < 1 \<or> \<not> count < length b \<or> b ! count = EOFType")
    case True
    then show ?thesis by (auto simp: unfold)
  next
    case running: False
    show ?thesis
    proof (cases "Name_UnmarshalObject (drop count b)")
      case (Inl e)
      with running show ?thesis by (simp add: unfold)
    next
      case name: (Inr p)
      obtain k nc where p: "p = (k, nc)" by (cases p)
      show ?thesis
      proof (cases "UnmarshalObject (drop (count + nc) b)")
        case (Inl e)
        with running name p show ?thesis by (simp add: unfold)
      next
        case val: (Inr q)
        obtain v vc where q: "q = (v, vc)" by (cases q)
        show ?thesis
        proof (cases "IsInternal (Type v)")
          case True
          with running name p val q show ?thesis by (simp add: unfold)
        next
          case False
          have "Document_loop (m ++ m'(k \<mapsto> v)) b (count + nc + vc)
                  = (m ++ fst (Document_loop (m'(k \<mapsto> v)) b (count + nc + vc)),
                     snd (Document_loop (m'(k \<mapsto> v)) b (count + nc + vc)))"
            using running name p val q False by (intro "1.IH") auto
          with running name p val q False show ?thesis
            by (simp add: unfold map_add_upd)
        qed
      qed
    qed
  qed
qed

lemma Document_loop_override:
  "Document_loop m b count
     = (m ++ fst (Document_loop Map.empty b count), snd (Document_loop Map.empty b count))"
  using Document_loop_map_add [of m Map.empty b count] by simp

text \<open>
  A stream with the single field \<^verbatim>\<open>"a"\<close>, bound to Null, has no \<^verbatim>\<open>"id"\<close>: the decode into a
  new wrapper fails with InvalidDocument, and the wrapper, empty before the call, binds
  \<^verbatim>\<open>"a"\<close> after it.
\<close>

theorem decode_failure_keeps_decoded_fields_counterexample:
  "snd (Document_UnmarshalObject NewDocument
          [DocumentType, NameType, 0x61, NullTerm, NullType, EOFType]) = Inl ErrInvalidDocument
   \<and> kv NewDocument [0x61] = None
   \<and> kv (fst (Document_UnmarshalObject NewDocument
          [DocumentType, NameType, 0x61, NullTerm, NullType, EOFType])) [0x61] = Some Null"
  by (simp add: Document_UnmarshalObject_def Document_loop.simps Name_UnmarshalObject_def
      findNullTerm.simps UnmarshalObject.simps UnmarshalNull_def IsInternal_def NewDocument_def
      id_key_def)

subsection \<open>Decoding and projecting a well-formed stream\<close>

lemma foldl_store: "foldl store m fs = m ++ map_of (rev fs)"
proof (induction fs arbitrary: m)
  case Nil
  then show ?case by simp
next
  case (Cons f fs)
  obtain k v where f: "f = (k, v)" by (cases f)
  have "foldl store m (f # fs) = foldl store (m(k \<mapsto> v)) fs"
    by (simp add: f)
  also have "\<dots> = m(k \<mapsto> v) ++ map_of (rev fs)"
    by (rule Cons.IH)
  also have "\<dots> = m ++ map_of (rev (f # fs))"
    by (rule ext) (simp add: f map_add_def split: option.splits)
  finally show ?case .
qed


lemma length_document_stream: "length (document_stream fs) = length (encoded_fields fs) + 2"
  by (simp add: document_stream_def)

lemma Document_UnmarshalObject_stream:
  assumes "list_all wire_field fs"
  shows "Document_UnmarshalObject d (document_stream fs)
           = (d\<lparr>kv := foldl store (kv d) fs\<rparr>,
              if foldl store (kv d) fs id_key = None then Inl ErrInvalidDocument
              else Inr (length (document_stream fs) - 1))"
  using Document_loop_stream [OF assms, of "[DocumentType]" 1 "kv d" "[]"]
  by (simp add: Document_UnmarshalObject_def document_stream_def)


subsection \<open>A decode that fails after some fields\<close>

text \<open>
  After a prefix of well-formed fields the loop stands behind them with each of them
  stored; a field that fails there ends the call with the map as it then is.
\<close>

lemma Document_loop_field_fails:
  assumes "count < length b" and "b ! count \<noteq> EOFType"
    and "next_field_error (drop count b) = Some e"
  shows "Document_loop m b count = (m, Inl e)"
  using assms
  by (subst Document_loop.simps)
     (auto simp: next_field_error_def add.commute split: sum.splits prod.splits if_splits)

lemma Document_loop_prefix:
  assumes "list_all wire_field fs" and "length pre = count"
  shows "Document_loop m (pre @ encoded_fields fs @ rest) count
           = Document_loop (foldl store m fs) (pre @ encoded_fields fs @ rest)
               (count + length (encoded_fields fs))"
  using assms
proof (induction fs arbitrary: m pre count)
  case Nil
  then show ?case by simp
next
  case (Cons f fs)
  obtain k v where f: "f = (k, v)" by (cases f)
  from Cons.prems f have wf: "wire_field (k, v)" and more: "list_all wire_field fs" by simp_all
  define tail where "tail = encoded_fields fs @ rest"
  define b where "b = pre @ Name_MarshalObject k @ encoding v @ tail"
  have b: "pre @ encoded_fields (f # fs) @ rest = b"
    and b': "b = (pre @ Name_MarshalObject k @ encoding v) @ encoded_fields fs @ rest"
    by (simp_all add: f b_def tail_def)
  have lt: "count < length b" using Cons.prems(2) by (simp add: b_def Name_MarshalObject_def)
  have tag: "b ! count \<noteq> EOFType"
    using Cons.prems(2) by (simp add: b_def nth_append Name_MarshalObject_def)
  from wf have v: "\<not> IsInternal (Type v)" by (simp add: wire_field_def scalar_not_internal)
  have "Document_loop m b count
      = Document_loop (m(k \<mapsto> v)) b (count + length (Name_MarshalObject k) + length (encoding v))"
    using lt tag field_decode [OF wf Cons.prems(2), of tail, folded b_def] v
    by (rule Document_loop_step)
  also have "\<dots> = Document_loop (foldl store (m(k \<mapsto> v)) fs) b
           (count + length (Name_MarshalObject k) + length (encoding v) + length (encoded_fields fs))"
    unfolding b' by (rule Cons.IH [OF more]) (simp add: Cons.prems(2))
  finally show ?case unfolding b by (simp add: f add.assoc)
qed

lemma Document_UnmarshalObject_field_fails:
  assumes "list_all wire_field fs" and "rest \<noteq> []" and "rest ! 0 \<noteq> EOFType"
    and "next_field_error rest = Some e"
  shows "Document_UnmarshalObject d (DocumentType # encoded_fields fs @ rest)
           = (d\<lparr>kv := foldl store (kv d) fs\<rparr>, Inl e)"
proof -
  define b where "b = [DocumentType] @ encoded_fields fs @ rest"
  define c where "c = 1 + length (encoded_fields fs)"
  have pre: "Document_loop (kv d) b 1 = Document_loop (foldl store (kv d) fs) b c"
    unfolding b_def c_def by (rule Document_loop_prefix [OF assms(1)]) simp
  have "drop c b = rest" "c < length b" "b ! c = rest ! 0"
    using assms(2) by (simp_all add: b_def c_def nth_append)
  with assms(3,4) have "Document_loop (foldl store (kv d) fs) b c = (foldl store (kv d) fs, Inl e)"
    by (intro Document_loop_field_fails) simp_all
  with pre have "Document_loop (kv d) b (Suc 0) = (foldl store (kv d) fs, Inl e)" by simp
  moreover have "DocumentType # encoded_fields fs @ rest = b" by (simp add: b_def)
  moreover have "length b \<ge> 1" "b ! 0 = DocumentType" by (simp_all add: b_def)
  ultimately show ?thesis
    by (auto simp add: Document_UnmarshalObject_def)
qed

text \<open>
  Claim C2, amended. \<^verbatim>\<open>Document.UnmarshalObject\<close> stores each field into the wrapper's
  own map as soon as it is decoded, and nothing is undone when it fails. When the bytes
  are the Document tag, then well-formed fields (a name free of \<^verbatim>\<open>0x00\<close>, a scalar value, a
  String being free of \<^verbatim>\<open>0x00\<close>), then a field at which the loop fails (the name decoder
  or the value decoder returns an error, or the value is internal), the call returns that
  error and the wrapper's map is the map before the call with every one of the fields
  before the failing one stored, in their order. When the bytes are a well-formed stream
  after which \<^verbatim>\<open>"id"\<close> is not bound, the call returns InvalidDocument and every field of the
  stream is stored. For every buffer, the map after the call is the map before the call
  overridden by what a decode of the same bytes into a new wrapper leaves there, the two
  flags are as before, and the wrapper is unchanged when the call fails at the leading
  length or tag check.
\<close>

theorem decode_failure_keeps_decoded_fields:
  "(list_all wire_field fs \<longrightarrow> rest \<noteq> [] \<longrightarrow> rest ! 0 \<noteq> EOFType \<longrightarrow>
      next_field_error rest = Some e \<longrightarrow>
      Document_UnmarshalObject d (DocumentType # encoded_fields fs @ rest)
        = (d\<lparr>kv := foldl store (kv d) fs\<rparr>, Inl e))
   \<and> (list_all wire_field fs \<longrightarrow> foldl store (kv d) fs id_key = None \<longrightarrow>
      Document_UnmarshalObject d (document_stream fs)
        = (d\<lparr>kv := foldl store (kv d) fs\<rparr>, Inl ErrInvalidDocument))
   \<and> kv (fst (Document_UnmarshalObject d b))
       = kv d ++ kv (fst (Document_UnmarshalObject NewDocument b))
   \<and> modified (fst (Document_UnmarshalObject d b)) = modified d
   \<and> static (fst (Document_UnmarshalObject d b)) = static d
   \<and> (length b < 1 \<or> b ! 0 \<noteq> DocumentType \<longrightarrow> fst (Document_UnmarshalObject d b) = d)"
proof -
  obtain m0 r0 where e: "Document_loop Map.empty b 1 = (m0, r0)"
    by (cases "Document_loop Map.empty b 1")
  with Document_loop_override [of "kv d" b 1]
  have l: "Document_loop (kv d) b 1 = (kv d ++ m0, r0)" by simp
  from e l have "Document_loop Map.empty b (Suc 0) = (m0, r0)"
    and "Document_loop (kv d) b (Suc 0) = (kv d ++ m0, r0)" by simp_all
  then have general: "kv (fst (Document_UnmarshalObject d b))
       = kv d ++ kv (fst (Document_UnmarshalObject NewDocument b))
   \<and> modified (fst (Document_UnmarshalObject d b)) = modified d
   \<and> static (fst (Document_UnmarshalObject d b)) = static d
   \<and> (length b < 1 \<or> b ! 0 \<noteq> DocumentType \<longrightarrow> fst (Document_UnmarshalObject d b) = d)"
    by (simp add: Document_UnmarshalObject_def NewDocument_def split: sum.splits)
  have failing_field: "list_all wire_field fs \<longrightarrow> rest \<noteq> [] \<longrightarrow> rest ! 0 \<noteq> EOFType \<longrightarrow>
      next_field_error rest = Some e \<longrightarrow>
      Document_UnmarshalObject d (DocumentType # encoded_fields fs @ rest)
        = (d\<lparr>kv := foldl store (kv d) fs\<rparr>, Inl e)"
    by (intro impI Document_UnmarshalObject_field_fails)
  have missing_id: "list_all wire_field fs \<longrightarrow> foldl store (kv d) fs id_key = None \<longrightarrow>
      Document_UnmarshalObject d (document_stream fs)
        = (d\<lparr>kv := foldl store (kv d) fs\<rparr>, Inl ErrInvalidDocument)"
    by (simp add: Document_UnmarshalObject_stream)
  from failing_field missing_id general show ?thesis
    by (intro conjI) blast+
qed

theorem decode_failure_keeps_decoded_fields_witness:
  "Document_UnmarshalObject NewDocument
       [DocumentType, NameType, 0x61, NullTerm, NullType, BigIntType, NullTerm]
     = (NewDocument\<lparr>kv := [[0x61] \<mapsto> Null]\<rparr>, Inl ErrInvalidType)
   \<and> Document_UnmarshalObject NewDocument
       [DocumentType, NameType, 0x61, NullTerm, NullType, EOFType]
     = (NewDocument\<lparr>kv := [[0x61] \<mapsto> Null]\<rparr>, Inl ErrInvalidDocument)
   \<and> kv NewDocument [0x61] = None
   \<and> fst (Document_UnmarshalObject (fst (Set NewDocument [0x61] (Bool True))) [ArrayType, EOFType])
     = fst (Set NewDocument [0x61] (Bool True))"
  using decode_failure_keeps_decoded_fields
          [of "[([0x61], Null)]" "[BigIntType, NullTerm]" ErrInvalidType NewDocument
              "[ArrayType, EOFType]"]
        decode_failure_keeps_decoded_fields
          [of "[([0x61], Null)]" "[BigIntType, NullTerm]" ErrInvalidType
              "fst (Set NewDocument [0x61] (Bool True))" "[ArrayType, EOFType]"]
  by (simp add: wire_field_def next_field_error_def Name_UnmarshalObject_def document_stream_def
      Name_MarshalObject_def encoding_def Null_MarshalObject_def NewDocument_def id_key_def)

subsection \<open>The "id" check\<close>




subsection \<open>Projection and the "id" check\<close>





subsection \<open>Evaluating the codec on concrete inputs\<close>

lemmas eval_defs =
  Document_UnmarshalObject_def Document_loop.simps Project_def Project_loop.simps inKey_def
  Name_UnmarshalObject_def findNullTerm.simps UnmarshalObject.simps
  Array_UnmarshalObject.simps Array_loop.simps
  UnmarshalInt64_def UnmarshalInt32_def UnmarshalFloat_def UnmarshalString_def UnmarshalBool_def
  UnmarshalNull_def UnmarshalChar_def UnmarshalEOF_def UnmarshalName_def
  Uint64_def Uint32_def byteToBool_def IsInternal_def
  Document_MarshalObject_def GenericDocumentUnmarshaler_def Get_def ID_def
  Int64_MarshalObject_def Int32_MarshalObject_def Float_MarshalObject_def String_MarshalObject_def
  Bool_MarshalObject_def Null_MarshalObject_def Char_MarshalObject_def EOF_MarshalObject_def
  Name_MarshalObject_def PutUint64_def PutUint32_def boolToByte_def
  NewDocument_def id_key_def name_key_def amount_key_def alice_def

subsection \<open>The count returned by a projection\<close>

text \<open>
  Claim C3. The claim asks that \<^verbatim>\<open>Project\<close> stores exactly the requested fields and that
  its count is the length of the encoded document, which is also the count of the full
  decode. The sample document is encoded in 41 bytes. Projecting \<^verbatim>\<open>name\<close> out of them
  into a new wrapper stores \<^verbatim>\<open>name\<close> alone, and the full decode returns the same count as
  the projection; but that count is 40, the index of the EndOfStream byte: both loops
  leave at \<^verbatim>\<open>break\<close> with the cursor on that byte and return the cursor, without counting
  the byte they have just read.
\<close>

theorem Project_count_excludes_EOF:
  "Document_MarshalObject [id_key, name_key, amount_key] example_document = Inr example_bytes
   \<and> length example_bytes = 41
   \<and> Project NewDocument example_bytes [name_key]
        = (NewDocument\<lparr>kv := [name_key \<mapsto> String alice]\<rparr>, Inr 40)
   \<and> snd (Document_UnmarshalObject NewDocument example_bytes) = Inr 40"
  by (simp add: example_document_def example_bytes_def eval_defs)

subsection \<open>Round trip of a document\<close>

lemma GenericDocumentUnmarshaler_loop_fields:
  assumes "wire_document d keys"
  shows "GenericDocumentUnmarshaler_loop d b keys
           = Inr (b @ encoded_fields (map (\<lambda>key. (key, the (kv d key))) keys))"
  using assms
proof (induction keys arbitrary: b)
  case Nil
  then show ?case by simp
next
  case (Cons key keys)
  from Cons.prems obtain v where v: "kv d key = Some v" and wf: "wire_field (key, v)"
    and rest: "wire_document d keys"
    by (auto simp: wire_document_def split: option.splits)
  from wf have "MarshalObject v = Inr (encoding v)"
    by (simp add: wire_field_def scalar_encoding)
  with v Cons.IH [OF rest] show ?case
    by (simp add: Get_def)
qed

lemma wire_document_fields:
  "wire_document d keys \<Longrightarrow> list_all wire_field (map (\<lambda>key. (key, the (kv d key))) keys)"
  by (induction keys) (auto simp: wire_document_def split: option.splits)

lemma Document_MarshalObject_stream:
  assumes "wire_document d keys" and "ID d \<noteq> None"
  shows "Document_MarshalObject keys d
           = Inr (document_stream (map (\<lambda>key. (key, the (kv d key))) keys))"
  using assms(2) GenericDocumentUnmarshaler_loop_fields [OF assms(1), of "[DocumentType]"]
  by (simp add: Document_MarshalObject_def GenericDocumentUnmarshaler_def document_stream_def
      EOF_MarshalObject_def)

lemma map_of_fields:
  assumes "set keys = dom m"
  shows "map_of (rev (map (\<lambda>key. (key, the (m key))) keys)) = m"
proof (rule ext)
  fix k
  have "map_of (rev (map (\<lambda>key. (key, the (m key))) keys))
          = map_of (map (\<lambda>key. (key, the (m key))) (rev keys))"
    by (simp add: rev_map)
  also have "\<dots> = (Some \<circ> (\<lambda>key. the (m key))) |` set (rev keys)"
    by (rule map_of_map_restrict)
  finally show "map_of (rev (map (\<lambda>key. (key, the (m key))) keys)) k = m k"
    using assms by (cases "m k") (auto simp: restrict_map_def)
qed

text \<open>
  Four documents that bind \<^verbatim>\<open>"id"\<close> and are not read back. A String value holding the
  byte \<^verbatim>\<open>0x00\<close> is cut at that byte, and the decoder then meets a byte that is no Name
  tag. A field name holding \<^verbatim>\<open>0x00\<close> is cut in the same way. A value that is itself a
  document has no case in \<^verbatim>\<open>MarshalObject\<close>, and the encoder fails. A Name as a value is
  encoded, and refused by the decoder as an internal value.
\<close>

theorem document_roundtrip_counterexample:
  "Document_MarshalObject [id_key] \<lparr>kv = [id_key \<mapsto> String [NullTerm]], modified = True, static = False\<rparr>
     = Inr [DocumentType, NameType, 0x69, 0x64, NullTerm, StringType, NullTerm, NullTerm, EOFType]
   \<and> snd (Document_UnmarshalObject NewDocument
        [DocumentType, NameType, 0x69, 0x64, NullTerm, StringType, NullTerm, NullTerm, EOFType])
       = Inl ErrInvalidType
   \<and> Document_MarshalObject [id_key, [NullTerm]]
        \<lparr>kv = [id_key \<mapsto> Null, [NullTerm] \<mapsto> Null], modified = True, static = False\<rparr>
     = Inr [DocumentType, NameType, 0x69, 0x64, NullTerm, NullType,
            NameType, NullTerm, NullTerm, NullType, EOFType]
   \<and> snd (Document_UnmarshalObject NewDocument
        [DocumentType, NameType, 0x69, 0x64, NullTerm, NullType,
         NameType, NullTerm, NullTerm, NullType, EOFType])
       = Inl ErrInvalidType
   \<and> Document_MarshalObject [id_key, name_key]
        \<lparr>kv = [id_key \<mapsto> Null, name_key \<mapsto> DocumentRef], modified = True, static = False\<rparr>
     = Inl ErrInvalidType
   \<and> Document_MarshalObject [id_key, name_key]
        \<lparr>kv = [id_key \<mapsto> Null, name_key \<mapsto> Name alice], modified = True, static = False\<rparr>
     = Inr [DocumentType, NameType, 0x69, 0x64, NullTerm, NullType,
            NameType, 0x6e, 0x61, 0x6d, 0x65, NullTerm,
            NameType, 0x61, 0x6c, 0x69, 0x63, 0x65, NullTerm, EOFType]
   \<and> snd (Document_UnmarshalObject NewDocument
        [DocumentType, NameType, 0x69, 0x64, NullTerm, NullType,
            NameType, 0x6e, 0x61, 0x6d, 0x65, NullTerm,
            NameType, 0x61, 0x6c, 0x69, 0x63, 0x65, NullTerm, EOFType])
       = Inl ErrInvalidDocument"
  by (simp add: eval_defs)

text \<open>
  An Array value is outside the amended claim: the encoder writes no EndOfStream byte
  after its elements and the decoder reads elements up to the next such byte, so an
  array is read back with whatever follows it, here the second element of the outer
  array as an element of the inner one.
\<close>

lemma array_value_not_read_back:
  "Document_MarshalObject [id_key]
        \<lparr>kv = [id_key \<mapsto> Array [Array [], Int32 1]], modified = True, static = False\<rparr>
     = Inr [DocumentType, NameType, 0x69, 0x64, NullTerm,
            ArrayType, ArrayType, Int32Type, 0, 0, 0, 1, EOFType]
   \<and> Document_UnmarshalObject NewDocument
        [DocumentType, NameType, 0x69, 0x64, NullTerm,
         ArrayType, ArrayType, Int32Type, 0, 0, 0, 1, EOFType]
       = (NewDocument\<lparr>kv := [id_key \<mapsto> Array [Array [Int32 1]]]\<rparr>, Inr 12)"
  by (simp add: eval_defs)


text \<open>
  Claim C6, amended. For every document that binds \<^verbatim>\<open>"id"\<close>, whose field names are free
  of the byte \<^verbatim>\<open>0x00\<close> and whose values are scalar (Null, Bool, Char, Int32, Int64, Float,
  or a String free of \<^verbatim>\<open>0x00\<close>), and for every order in which \<^verbatim>\<open>Keys\<close> lists its fields,
  encoding succeeds, and decoding the bytes into a new wrapper succeeds and yields the
  same field map and the same \<^verbatim>\<open>ID()\<close>.
\<close>

theorem document_roundtrip:
  assumes "Keys_result d keys" and "ID d \<noteq> None" and "wire_document d keys"
  shows "\<exists>bs. Document_MarshalObject keys d = Inr bs
          \<and> (\<exists>n. snd (Document_UnmarshalObject NewDocument bs) = Inr n)
          \<and> kv (fst (Document_UnmarshalObject NewDocument bs)) = kv d
          \<and> ID (fst (Document_UnmarshalObject NewDocument bs)) = ID d"
proof -
  let ?fs = "map (\<lambda>key. (key, the (kv d key))) keys"
  have enc: "Document_MarshalObject keys d = Inr (document_stream ?fs)"
    by (rule Document_MarshalObject_stream [OF assms(3,2)])
  from assms(1) have m: "foldl store Map.empty ?fs = kv d"
    by (simp add: foldl_store map_of_fields Keys_result_def)
  have dec: "Document_UnmarshalObject NewDocument (document_stream ?fs)
           = (NewDocument\<lparr>kv := kv d\<rparr>,
              if kv d id_key = None then Inl ErrInvalidDocument
              else Inr (length (document_stream ?fs) - 1))"
    using Document_UnmarshalObject_stream [OF wire_document_fields [OF assms(3)], of NewDocument] m
    by (simp add: NewDocument_def)
  from assms(2) have "kv d id_key \<noteq> None" by (simp add: ID_def)
  with enc dec show ?thesis by (simp add: ID_def)
qed


theorem document_roundtrip_witness:
  "Document_MarshalObject [amount_key, name_key, id_key] example_document
     = Inr ([DocumentType]
            @ Name_MarshalObject amount_key @ Int32_MarshalObject 5
            @ Name_MarshalObject name_key @ String_MarshalObject alice
            @ Name_MarshalObject id_key @ Int64_MarshalObject 1
            @ [EOFType])
   \<and> kv (fst (Document_UnmarshalObject NewDocument
                ([DocumentType]
                 @ Name_MarshalObject amount_key @ Int32_MarshalObject 5
                 @ Name_MarshalObject name_key @ String_MarshalObject alice
                 @ Name_MarshalObject id_key @ Int64_MarshalObject 1
                 @ [EOFType])))
        = kv example_document
   \<and> ID (fst (Document_UnmarshalObject NewDocument
                ([DocumentType]
                 @ Name_MarshalObject amount_key @ Int32_MarshalObject 5
                 @ Name_MarshalObject name_key @ String_MarshalObject alice
                 @ Name_MarshalObject id_key @ Int64_MarshalObject 1
                 @ [EOFType])))
        = Some (Int64 1)"
proof -
  have keys: "Keys_result example_document [amount_key, name_key, id_key]"
    by (auto simp: Keys_result_def example_document_def id_key_def name_key_def amount_key_def)
  have id: "ID example_document \<noteq> None"
    by (simp add: ID_def example_document_def id_key_def name_key_def amount_key_def)
  have wire: "wire_document example_document [amount_key, name_key, id_key]"
    by (simp add: wire_document_def wire_field_def example_document_def id_key_def name_key_def
        amount_key_def alice_def)
  have enc: "Document_MarshalObject [amount_key, name_key, id_key] example_document
     = Inr ([DocumentType]
            @ Name_MarshalObject amount_key @ Int32_MarshalObject 5
            @ Name_MarshalObject name_key @ String_MarshalObject alice
            @ Name_MarshalObject id_key @ Int64_MarshalObject 1
            @ [EOFType])"
    by (simp add: example_document_def Document_MarshalObject_def GenericDocumentUnmarshaler_def
        Get_def ID_def EOF_MarshalObject_def id_key_def name_key_def amount_key_def)
  have "ID example_document = Some (Int64 1)"
    by (simp add: ID_def example_document_def id_key_def name_key_def amount_key_def)
  with document_roundtrip [OF keys id wire] enc show ?thesis
    by auto
qed

end
